theory Spec2Isabelle
  imports Main
begin

section \<open>Python values used by seqTools/alignAnnotate.py\<close>

text \<open>
  The script is Python 2. Its strings are byte strings (\<open>string\<close>), its integers are
  unbounded (\<open>int\<close>). The counts handed to \<open>makeAnnotation\<close> are either integers or
  \<open>np.nan\<close>; \<open>str\<close> prints the latter as \<open>nan\<close>.
\<close>

datatype error = ValueError | KeyError | IndexError | AlignerError

datatype pynum = PyInt int | NaN

definition digit :: "nat \<Rightarrow> char" where
  "digit n = ''0123456789'' ! (n mod 10)"

fun str_nat :: "nat \<Rightarrow> string" where
  "str_nat n = (if n < 10 then [digit n] else str_nat (n div 10) @ [digit n])"

declare str_nat.simps [simp del]

definition str_int :: "int \<Rightarrow> string" where
  "str_int i = (if i < 0 then CHR ''-'' # str_nat (nat (- i)) else str_nat (nat i))"

fun str_num :: "pynum \<Rightarrow> string" where
  "str_num (PyInt i) = str_int i"
| "str_num NaN = ''nan''"

text \<open>\<open>sep.join(xs)\<close>\<close>

fun join :: "string \<Rightarrow> string list \<Rightarrow> string" where
  "join sep [] = []"
| "join sep [x] = x"
| "join sep (x # y # ys) = x @ sep @ join sep (y # ys)"

text \<open>\<open>s.split(sep)\<close> for a one-character separator: the inverse reading of an annotation.\<close>

fun split_on :: "char \<Rightarrow> string \<Rightarrow> string list" where
  "split_on c [] = [[]]"
| "split_on c (x # xs) =
     (if x = c then [] # split_on c xs
      else (case split_on c xs of [] \<Rightarrow> [[x]] | w # ws \<Rightarrow> (x # w) # ws))"

text \<open>\<open>s.upper()\<close> on a byte string: the ASCII letters a..z are mapped to A..Z.\<close>

definition upper_char :: "char \<Rightarrow> char" where
  "upper_char c =
     (let n = (of_char c :: nat) in if 97 \<le> n \<and> n \<le> 122 then char_of (n - 32) else c)"

definition upper :: "string \<Rightarrow> string" where
  "upper s = map upper_char s"

subsection \<open>Dictionaries\<close>

text \<open>
  A Python dictionary is kept as the list of its (key, value) pairs, keys distinct, in the
  order in which the keys were first inserted. The order in which a Python 2 dictionary is
  iterated is not the insertion order: it is fixed by the interpreter from the keys that
  were inserted. That order is a parameter (\<open>dictOrder\<close> below), and \<open>items\<close> lists a
  dictionary in it.
\<close>

type_synonym 'v pydict = "(string \<times> 'v) list"

text \<open>\<open>d[k]\<close>: raises KeyError for a missing key.\<close>

definition lookup :: "'v pydict \<Rightarrow> string \<Rightarrow> error + 'v" where
  "lookup d k = (case map_of d k of None \<Rightarrow> Inl KeyError | Some v \<Rightarrow> Inr v)"

text \<open>\<open>d[k] = v\<close>: overwrites the value of a key already present, silently.\<close>

fun dict_set :: "'v pydict \<Rightarrow> string \<Rightarrow> 'v \<Rightarrow> 'v pydict" where
  "dict_set [] k v = [(k, v)]"
| "dict_set ((k', v') # d) k v = (if k' = k then (k, v) # d else (k', v') # dict_set d k v)"

text \<open>\<open>xs[0]\<close>: raises IndexError on an empty list.\<close>

definition index0 :: "'a list \<Rightarrow> error + 'a" where
  "index0 xs = (case xs of [] \<Rightarrow> Inl IndexError | x # _ \<Rightarrow> Inr x)"

text \<open>\<open>min(xs)\<close>: raises ValueError on an empty list.\<close>

definition pymin :: "int list \<Rightarrow> error + int" where
  "pymin xs = (case xs of [] \<Rightarrow> Inl ValueError | x # ys \<Rightarrow> Inr (fold min ys x))"

text \<open>Sequencing of two computations that may raise.\<close>

definition bind :: "error + 'a \<Rightarrow> ('a \<Rightarrow> error + 'b) \<Rightarrow> error + 'b" where
  "bind m f = (case m of Inl e \<Rightarrow> Inl e | Inr x \<Rightarrow> f x)"

section \<open>The collaborators of the script\<close>

text \<open>
  The module \<open>seqlib\<close> (\<open>hamming\<close>, \<open>findMismatches\<close>, \<open>alignEmbossNeedle\<close>,
  \<open>findMismatchesAndIndels\<close>) is imported by the script and is not part of the sources
  at hand, and the iteration order of dictionaries belongs to the interpreter. All five are
  parameters of the model. The aligner runs an external program and may raise; the other
  three functions of \<open>seqlib\<close> are taken to return.
\<close>

record env =
  dictOrder :: "string list \<Rightarrow> string list"
  hamming :: "string \<Rightarrow> string \<Rightarrow> int"
  findMismatches :: "string \<Rightarrow> string \<Rightarrow> int \<Rightarrow> int list \<Rightarrow> string list"
  alignEmbossNeedle :: "string \<Rightarrow> string \<Rightarrow> error + (string \<times> string)"
  findMismatchesAndIndels ::
    "string \<Rightarrow> string \<Rightarrow> int \<Rightarrow> int list \<Rightarrow> string list \<times> string list \<times> string list"

text \<open>\<open>d.items()\<close>: the pairs of \<open>d\<close> in the interpreter's iteration order.\<close>

definition items :: "env \<Rightarrow> 'v pydict \<Rightarrow> (string \<times> 'v) list" where
  "items E d =
     concat (map (\<lambda>k. case map_of d k of None \<Rightarrow> [] | Some v \<Rightarrow> [(k, v)])
                 (dictOrder E (map fst d)))"

text \<open>
  What is known of the iteration order: a dictionary is iterated over exactly its keys,
  each once.
\<close>

definition dictOrder_ok :: "env \<Rightarrow> bool" where
  "dictOrder_ok E \<longleftrightarrow>
     (\<forall>ks. distinct ks \<longrightarrow> distinct (dictOrder E ks) \<and> set (dictOrder E ks) = set ks)"

section \<open>makeAnnotation\<close>

definition makeAnnotation ::
  "string \<Rightarrow> pynum \<Rightarrow> pynum \<Rightarrow> pynum \<Rightarrow> string list \<Rightarrow> string list \<Rightarrow> string list \<Rightarrow> string"
where
  "makeAnnotation label numMM numIn numDel listMM listIn listDel =
     (let csMM = join '','' listMM;
          csIn = join '','' listIn;
          csDel = join '','' listDel;
          listAnnotation = [label, str_num numMM, str_num numIn, str_num numDel, csMM, csIn, csDel]
      in join '':'' listAnnotation)"

section \<open>alignAnnotateEachSeqMMonly\<close>

text \<open>
  Every matcher returns the lines it printed together with its outcome: the annotation, or
  the exception that left the function.
\<close>

type_synonym outcome = "string list \<times> (error + string)"

definition warningMM :: string where
  "warningMM =
     ''Warning! Multiple reference sequences have the same Hamming distance with the query sequence''"

definition warningIndels :: string where
  "warningIndels =
     ''Warning! Multiple aligned reference sequences have the same Hamming distance with the aligned query sequence''"

text \<open>The dictionary \<open>hamDict\<close> of the mismatch-only matcher.\<close>

definition hamDictMM :: "env \<Rightarrow> string \<Rightarrow> string pydict \<Rightarrow> int pydict" where
  "hamDictMM E querySeq refSeqsDict =
     [(refSeqID, hamming E querySeq refSeq).
        (refSeqID, refSeq) \<leftarrow> items E refSeqsDict, length querySeq = length refSeq]"

definition alignAnnotateEachSeqMMonly ::
  "env \<Rightarrow> string \<Rightarrow> string pydict \<Rightarrow> int \<Rightarrow> (int list) pydict \<Rightarrow> int \<Rightarrow> outcome"
where
  "alignAnnotateEachSeqMMonly E querySeq refSeqsDict startPos refPosDict MMcutoff =
     (let hamDict = hamDictMM E querySeq refSeqsDict in
      if hamDict \<noteq> [] then
        (case pymin (map snd (items E hamDict)) of
           Inl e \<Rightarrow> ([], Inl e)
         | Inr minHam \<Rightarrow>
             (let minHamRefIDs =
                    [refSeqID. (refSeqID, refSeqHam) \<leftarrow> items E hamDict, refSeqHam = minHam]
              in if minHam \<le> MMcutoff then
                   (if 1 < length minHamRefIDs then [warningMM] else [],
                    bind (index0 minHamRefIDs) (\<lambda>matchID.
                    bind (lookup refSeqsDict matchID) (\<lambda>refSeq.
                    bind (lookup refPosDict matchID) (\<lambda>refPos.
                      Inr (makeAnnotation matchID (PyInt minHam) (PyInt 0) (PyInt 0)
                             (findMismatches E querySeq refSeq startPos refPos) [] [])))))
                 else ([], Inr (makeAnnotation ''NA'' NaN NaN NaN [] [] []))))
      else ([], Inr (makeAnnotation ''NA'' NaN NaN NaN [] [] [])))"

section \<open>alignAnnotateEachSeqMMindels\<close>

text \<open>
  The comprehension that builds \<open>alignmentsDict\<close> calls the aligner for each reference in
  turn; the first call that raises ends it.
\<close>

fun alignAll ::
  "env \<Rightarrow> string \<Rightarrow> (string \<times> string) list \<Rightarrow> error + (string \<times> string) pydict"
where
  "alignAll E querySeq [] = Inr []"
| "alignAll E querySeq ((refSeqID, refSeq) # rest) =
     bind (alignEmbossNeedle E querySeq refSeq) (\<lambda>al.
     bind (alignAll E querySeq rest) (\<lambda>als. Inr ((refSeqID, al) # als)))"

definition hamDictIndels :: "env \<Rightarrow> (string \<times> string) pydict \<Rightarrow> int pydict" where
  "hamDictIndels E alignmentsDict =
     [(refSeqID, hamming E alignedQuery alignedRef).
        (refSeqID, (alignedQuery, alignedRef)) \<leftarrow> items E alignmentsDict]"

definition alignAnnotateEachSeqMMindels ::
  "env \<Rightarrow> string \<Rightarrow> string pydict \<Rightarrow> int \<Rightarrow> (int list) pydict \<Rightarrow> outcome"
where
  "alignAnnotateEachSeqMMindels E querySeq refSeqsDict startPos refPosDict =
     (case alignAll E querySeq (items E refSeqsDict) of
        Inl e \<Rightarrow> ([], Inl e)
      | Inr alignmentsDict \<Rightarrow>
          (let hamDict = hamDictIndels E alignmentsDict in
           case pymin (map snd (items E hamDict)) of
             Inl e \<Rightarrow> ([], Inl e)
           | Inr minHam \<Rightarrow>
               (let minHamAlignmentIDs =
                      [refSeqID. (refSeqID, refSeqHam) \<leftarrow> items E hamDict, refSeqHam = minHam]
                in (if 1 < length minHamAlignmentIDs then [warningIndels] else [],
                    bind (index0 minHamAlignmentIDs) (\<lambda>matchID.
                    bind (lookup alignmentsDict matchID) (\<lambda>(alignedQuery, alignedRef).
                    bind (lookup refPosDict matchID) (\<lambda>refPos.
                      (case findMismatchesAndIndels E alignedQuery alignedRef startPos refPos of
                         (listMM, listIn, listDel) \<Rightarrow>
                           Inr (makeAnnotation matchID (PyInt (int (length listMM)))
                                  (PyInt (int (length listIn))) (PyInt (int (length listDel)))
                                  listMM listIn listDel)))))))))"

section \<open>alignAnnotateEachSeq\<close>

text \<open>
  \<open>MMcutoff\<close> is \<open>None\<close> when the option was not given. The test \<open>not MMcutoff\<close>
  holds for \<open>None\<close> and for the integer 0.
\<close>

definition alignAnnotateEachSeq ::
  "env \<Rightarrow> string \<Rightarrow> string pydict \<Rightarrow> int \<Rightarrow> (int list) pydict \<Rightarrow> int option \<Rightarrow> bool \<Rightarrow> outcome"
where
  "alignAnnotateEachSeq E querySeq refSeqsDict startPos refPosDict MMcutoff indelMode =
     (case find (\<lambda>(refSeqID, refSeq). querySeq = refSeq) (items E refSeqsDict) of
        Some (refSeqID, refSeq) \<Rightarrow>
          ([], Inr (makeAnnotation refSeqID (PyInt 0) (PyInt 0) (PyInt 0) [] [] []))
      | None \<Rightarrow>
          if \<not> indelMode then
            (let MMcutoff' =
                   (case MMcutoff of
                      None \<Rightarrow> int (length querySeq)
                    | Some c \<Rightarrow> if c = 0 then int (length querySeq) else c)
             in alignAnnotateEachSeqMMonly E querySeq refSeqsDict startPos refPosDict MMcutoff')
          else alignAnnotateEachSeqMMindels E querySeq refSeqsDict startPos refPosDict)"

section \<open>main\<close>

text \<open>
  The parts of \<open>main\<close> between the parsers and the writer. \<open>SeqIO.parse\<close> hands over
  the records of the reference file, \<open>pd.read_csv\<close> the rows of the query table (its
  columns \<open>seq\<close> and \<open>count\<close>); both are collaborators, and so is \<open>to_csv\<close>.
\<close>

record seqRecord =
  rec_id :: string
  rec_seq :: string
  phred_quality :: "int list"

record row =
  row_seq :: string
  row_count :: int

record args =
  arg_indel :: bool
  arg_MMcutoff :: "int option"
  arg_numberedMode :: bool
  arg_startPos :: int
  arg_count :: bool
  arg_numCore :: int

definition phredOffset :: int where
  "phredOffset = 15"

text \<open>One round of the loop that reads the reference sequences.\<close>

definition readRefsStep ::
  "bool \<Rightarrow> seqRecord \<Rightarrow> string pydict \<times> (int list) pydict \<Rightarrow> string pydict \<times> (int list) pydict"
where
  "readRefsStep numberedMode record dicts =
     (case dicts of (refSeqsDict, refPosDict) \<Rightarrow>
        if numberedMode then
          (dict_set refSeqsDict (rec_id record) (upper (rec_seq record)),
           dict_set refPosDict (rec_id record)
             ([i - phredOffset. i \<leftarrow> phred_quality record] @ [1]))
        else
          (dict_set refSeqsDict (rec_id record) (upper (rec_seq record)),
           dict_set refPosDict (rec_id record) []))"

definition readRefs :: "bool \<Rightarrow> seqRecord list \<Rightarrow> string pydict \<times> (int list) pydict" where
  "readRefs numberedMode records = fold (readRefsStep numberedMode) records ([], [])"

text \<open>
  \<open>Series.apply\<close> and \<open>Parallel(...)(delayed(f)(x) for x in xs)\<close> both return the
  results of \<open>f\<close> in the order of their inputs, and both let an exception of \<open>f\<close>
  through; neither the workers nor what they print is modelled.
\<close>

fun applyEach :: "(string \<Rightarrow> outcome) \<Rightarrow> string list \<Rightarrow> error + string list" where
  "applyEach f [] = Inr []"
| "applyEach f (s # ss) =
     bind (snd (f s)) (\<lambda>a. bind (applyEach f ss) (\<lambda>as. Inr (a # as)))"

text \<open>The column \<open>allAnnotationsAndCounts\<close>.\<close>

definition appendCounts :: "bool \<Rightarrow> string list \<Rightarrow> row list \<Rightarrow> string list" where
  "appendCounts countMode allAnnotations allQuerySeqs =
     (if countMode then
        map2 (\<lambda>a c. a @ '':'' @ str_int c) allAnnotations (map row_count allQuerySeqs)
      else map (\<lambda>a. a @ '':'') allAnnotations)"

definition main :: "env \<Rightarrow> args \<Rightarrow> seqRecord list \<Rightarrow> row list \<Rightarrow> error + string list" where
  "main E a records allQuerySeqs =
     (case readRefs (arg_numberedMode a) records of
        (refSeqsDict, refPosDict) \<Rightarrow>
          (let allAnnotations =
                 (if arg_numCore a = 1 then
                    applyEach
                      (\<lambda>s. alignAnnotateEachSeq E s refSeqsDict (arg_startPos a) refPosDict
                              (arg_MMcutoff a) (arg_indel a))
                      (map (\<lambda>r. upper (row_seq r)) allQuerySeqs)
                  else
                    applyEach
                      (\<lambda>s. alignAnnotateEachSeq E (upper s) refSeqsDict (arg_startPos a) refPosDict
                              (arg_MMcutoff a) (arg_indel a))
                      (map row_seq allQuerySeqs))
           in bind allAnnotations
                (\<lambda>anns. Inr (appendCounts (arg_count a) anns allQuerySeqs))))"

section \<open>A concrete environment\<close>

text \<open>
  Theorems about the script hold for every environment. To run the model on an input, the
  collaborators are instantiated as the specification describes them.
\<close>

text \<open>
  Modelled from the spec: \<open>seqlib.hamming\<close> is not among the sources. The Hamming
  distance is the count of differing positions between two equal-length sequences.
\<close>

definition hamming_spec :: "string \<Rightarrow> string \<Rightarrow> int" where
  "hamming_spec s t = int (length (filter (\<lambda>(x, y). x \<noteq> y) (zip s t)))"

text \<open>
  Modelled from the spec: the position label of the alignment offset \<open>i\<close>. With a
  position map it is the label at that index, without one the offset counted from the
  start position.
\<close>

definition posLabel :: "int \<Rightarrow> int list \<Rightarrow> nat \<Rightarrow> int" where
  "posLabel startPos refPos i = (if i < length refPos then refPos ! i else startPos + int i)"

text \<open>
  Modelled from the spec: \<open>seqlib.findMismatches\<close> is not among the sources. It lists each
  differing position with the observed and the reference base; an entry is written
  position, observed, reference.
\<close>

definition findMismatches_spec :: "string \<Rightarrow> string \<Rightarrow> int \<Rightarrow> int list \<Rightarrow> string list" where
  "findMismatches_spec querySeq refSeq startPos refPos =
     [str_int (posLabel startPos refPos i) @ [fst p, snd p].
        (i, p) \<leftarrow> zip [0 ..< length querySeq] (zip querySeq refSeq), fst p \<noteq> snd p]"

text \<open>
  Modelled from the spec: \<open>seqlib.findMismatchesAndIndels\<close> is not among the sources.
  From a gapped pair: mismatches are the positions where both sides are bases and differ,
  insertions those where the reference side is a gap, deletions those where the query side
  is a gap.
\<close>

definition gap :: char where
  "gap = CHR ''-''"

definition findMismatchesAndIndels_spec ::
  "string \<Rightarrow> string \<Rightarrow> int \<Rightarrow> int list \<Rightarrow> string list \<times> string list \<times> string list"
where
  "findMismatchesAndIndels_spec alignedQuery alignedRef startPos refPos =
     (let cols = zip [0 ..< length alignedQuery] (zip alignedQuery alignedRef) in
      ([str_int (posLabel startPos refPos i) @ [fst p, snd p].
          (i, p) \<leftarrow> cols, fst p \<noteq> gap, snd p \<noteq> gap, fst p \<noteq> snd p],
       [str_int (posLabel startPos refPos i) @ [fst p]. (i, p) \<leftarrow> cols, snd p = gap],
       [str_int (posLabel startPos refPos i) @ [snd p]. (i, p) \<leftarrow> cols, fst p = gap]))"

text \<open>
  Modelled from the spec: \<open>seqlib.alignEmbossNeedle\<close> is not among the sources. The
  aligner returns two gapped strings of equal length, at least as long as either input. This
  one pads the shorter sequence with gaps at its end, and raises when one of its inputs is
  not a sequence: empty, or with a character that is not a capital letter.
\<close>

definition isSequence :: "string \<Rightarrow> bool" where
  "isSequence s \<longleftrightarrow> s \<noteq> [] \<and> list_all (\<lambda>c. c \<in> set ''ABCDEFGHIJKLMNOPQRSTUVWXYZ'') s"

definition padAligner :: "string \<Rightarrow> string \<Rightarrow> error + (string \<times> string)" where
  "padAligner a b =
     (if isSequence a \<and> isSequence b then
        Inr (a @ replicate (length b - length a) gap, b @ replicate (length a - length b) gap)
      else Inl AlignerError)"

definition env0 :: env where
  "env0 = \<lparr> dictOrder = (\<lambda>ks. ks), hamming = hamming_spec,
            findMismatches = findMismatches_spec, alignEmbossNeedle = padAligner,
            findMismatchesAndIndels = findMismatchesAndIndels_spec \<rparr>"

section \<open>Facts about dictionaries\<close>

lemma items_entry:
  "(k, v) \<in> set (items E d) \<longleftrightarrow> k \<in> set (dictOrder E (map fst d)) \<and> map_of d k = Some v"
  by (auto simp: items_def split: option.splits)

lemma set_items:
  assumes "dictOrder_ok E" and "distinct (map fst d)"
  shows "set (items E d) = set d"
proof -
  have "set (dictOrder E (map fst d)) = set (map fst d)"
    using assms by (simp add: dictOrder_ok_def)
  then have "\<And>k v. (k, v) \<in> set (items E d) \<longleftrightarrow> (k, v) \<in> set d"
    using assms(2) by (auto simp: items_entry dest: map_of_SomeD intro: rev_image_eqI)
  then show ?thesis by auto
qed

lemma map_fst_items:
  assumes "dictOrder_ok E" and "distinct (map fst d)"
  shows "map fst (items E d) = dictOrder E (map fst d)"
proof -
  have sub: "set (dictOrder E (map fst d)) \<subseteq> fst ` set d"
    using assms by (simp add: dictOrder_ok_def)
  have "map fst (concat (map (\<lambda>k. case map_of d k of None \<Rightarrow> [] | Some v \<Rightarrow> [(k, v)]) ks)) = ks"
    if "set ks \<subseteq> fst ` set d" for ks
    using that by (induction ks) (auto split: option.splits simp: map_of_eq_None_iff)
  with sub show ?thesis by (simp add: items_def)
qed

lemma distinct_items:
  assumes "dictOrder_ok E" and "distinct (map fst d)"
  shows "distinct (map fst (items E d))"
  using assms by (simp add: map_fst_items dictOrder_ok_def)

lemma dictOrder_ok_env0: "dictOrder_ok env0"
  by (simp add: dictOrder_ok_def env0_def)

section \<open>The formatter\<close>

lemma makeAnnotation_eq:
  "makeAnnotation label numMM numIn numDel listMM listIn listDel =
     label @ '':'' @ str_num numMM @ '':'' @ str_num numIn @ '':'' @ str_num numDel @ '':'' @
     join '','' listMM @ '':'' @ join '','' listIn @ '':'' @ join '','' listDel"
  by (simp add: makeAnnotation_def)

lemma str_int_0: "str_int 0 = ''0''"
  by (simp add: str_int_def str_nat.simps digit_def)

lemma NA_annotation: "makeAnnotation ''NA'' NaN NaN NaN [] [] [] = ''NA:nan:nan:nan:::''"
  by (simp add: makeAnnotation_def)

lemma exact_annotation:
  "makeAnnotation k (PyInt 0) (PyInt 0) (PyInt 0) [] [] [] = k @ '':0:0:0:::''"
  by (simp add: makeAnnotation_def str_int_0)

lemma digit_mem: "digit n \<in> set ''0123456789''"
  unfolding digit_def by (rule nth_mem) simp

lemma digit_not_colon: "digit n \<noteq> CHR '':''"
  using digit_mem [of n] by auto

lemma colon_str_nat: "CHR '':'' \<notin> set (str_nat n)"
proof (induction n rule: str_nat.induct)
  case (1 n)
  show ?case
  proof (cases "n < 10")
    case True
    then show ?thesis using digit_not_colon [of n] by (subst str_nat.simps) auto
  next
    case False
    then show ?thesis using digit_not_colon [of n] 1 by (subst str_nat.simps) auto
  qed
qed

lemma colon_str_num: "CHR '':'' \<notin> set (str_num x)"
  by (cases x) (simp_all add: str_int_def colon_str_nat)

lemma colon_join_comma:
  "\<forall>e \<in> set xs. CHR '':'' \<notin> set e \<Longrightarrow> CHR '':'' \<notin> set (join '','' xs)"
  by (induction "'',''" xs rule: join.induct) auto

lemma split_on_free: "c \<notin> set w \<Longrightarrow> split_on c w = [w]"
  by (induction w) auto

lemma split_on_field: "c \<notin> set w \<Longrightarrow> split_on c (w @ c # rest) = w # split_on c rest"
  by (induction w) auto

lemma makeAnnotation_fields:
  assumes "CHR '':'' \<notin> set label"
    and "\<forall>e \<in> set (listMM @ listIn @ listDel). CHR '':'' \<notin> set e"
  shows "split_on (CHR '':'') (makeAnnotation label numMM numIn numDel listMM listIn listDel) =
     [label, str_num numMM, str_num numIn, str_num numDel,
      join '','' listMM, join '','' listIn, join '','' listDel]"
proof -
  have "CHR '':'' \<notin> set (join '','' listMM)" and "CHR '':'' \<notin> set (join '','' listIn)"
    and "CHR '':'' \<notin> set (join '','' listDel)"
    using assms(2) by (auto intro!: colon_join_comma)
  with assms(1) show ?thesis
    by (simp add: makeAnnotation_eq split_on_field split_on_free colon_str_num)
qed

lemma MMonly_unresolved:
  assumes "hamDictMM E querySeq refSeqsDict = []
         \<or> (\<exists>m. pymin (map snd (items E (hamDictMM E querySeq refSeqsDict))) = Inr m \<and> MMcutoff < m)"
  shows "alignAnnotateEachSeqMMonly E querySeq refSeqsDict startPos refPosDict MMcutoff =
           ([], Inr ''NA:nan:nan:nan:::'')"
  using assms by (auto simp: alignAnnotateEachSeqMMonly_def NA_annotation Let_def)

text \<open>
  C8. The formatter writes the seven fields label, number of mismatches, of insertions, of
  deletions, and the comma-joined lists of mismatches, insertions and deletions, joined by
  colons; when no field contains a colon, splitting the annotation at the colons gives
  these seven fields back. An unresolved result (no reference of the query's length, or a
  minimum distance above the cutoff) is written with the label NA and with \<open>nan\<close>, which
  is not the text of zero, in the three count fields.
\<close>

theorem makeAnnotation_seven_fields:
  "makeAnnotation label numMM numIn numDel listMM listIn listDel =
     label @ '':'' @ str_num numMM @ '':'' @ str_num numIn @ '':'' @ str_num numDel @ '':'' @
     join '','' listMM @ '':'' @ join '','' listIn @ '':'' @ join '','' listDel
   \<and> (CHR '':'' \<notin> set label \<and> (\<forall>e \<in> set (listMM @ listIn @ listDel). CHR '':'' \<notin> set e) \<longrightarrow>
        split_on (CHR '':'') (makeAnnotation label numMM numIn numDel listMM listIn listDel) =
          [label, str_num numMM, str_num numIn, str_num numDel,
           join '','' listMM, join '','' listIn, join '','' listDel])
   \<and> (hamDictMM E querySeq refSeqsDict = []
        \<or> (\<exists>m. pymin (map snd (items E (hamDictMM E querySeq refSeqsDict))) = Inr m \<and> MMcutoff < m) \<longrightarrow>
        alignAnnotateEachSeqMMonly E querySeq refSeqsDict startPos refPosDict MMcutoff =
          ([], Inr (makeAnnotation ''NA'' NaN NaN NaN [] [] [])))
   \<and> makeAnnotation ''NA'' NaN NaN NaN [] [] [] = ''NA:nan:nan:nan:::''
   \<and> str_num NaN \<noteq> str_num (PyInt 0)"
  using makeAnnotation_fields [of label listMM listIn listDel numMM numIn numDel]
    MMonly_unresolved [of E querySeq refSeqsDict MMcutoff startPos refPosDict]
  by (simp only: makeAnnotation_eq [symmetric] NA_annotation str_num.simps str_int_0) simp

theorem makeAnnotation_seven_fields_witness:
  "CHR '':'' \<notin> set ''r1'' \<and> CHR '':'' \<notin> set ''1AC'' \<and> CHR '':'' \<notin> set ''2AG''
   \<and> split_on (CHR '':'') (makeAnnotation ''r1'' (PyInt 2) (PyInt 0) (PyInt 0) [''1AC'', ''2AG''] [] []) =
       [''r1'', ''2'', ''0'', ''0'', ''1AC,2AG'', [], []]
   \<and> pymin (map snd (items env0 (hamDictMM env0 ''AA'' [(''r1'', ''CC'')]))) = Inr 2
   \<and> alignAnnotateEachSeqMMonly env0 ''AA'' [(''r1'', ''CC'')] 1 [(''r1'', [])] 1 =
       ([], Inr ''NA:nan:nan:nan:::'')"
proof -
  have h1: "CHR '':'' \<notin> set ''r1'' \<and> (\<forall>e \<in> set ([''1AC'', ''2AG''] @ [] @ []). CHR '':'' \<notin> set e)"
    by simp
  have h2: "pymin (map snd (items env0 (hamDictMM env0 ''AA'' [(''r1'', ''CC'')]))) = Inr 2"
    by code_simp
  have two: "str_int 2 = ''2''"
    by code_simp
  from h2 have h3: "hamDictMM env0 ''AA'' [(''r1'', ''CC'')] = []
        \<or> (\<exists>m. pymin (map snd (items env0 (hamDictMM env0 ''AA'' [(''r1'', ''CC'')]))) = Inr m \<and> 1 < m)"
    by simp
  show ?thesis
    using h1 h2 h3 two
      makeAnnotation_seven_fields [of "''r1''" "PyInt 2" "PyInt 0" "PyInt 0" "[''1AC'', ''2AG'']" "[]" "[]"
        env0 "''AA''" "[(''r1'', ''CC'')]" 1 1 "[(''r1'', [])]"]
    by (simp add: str_int_0)
qed

section \<open>The exact matcher\<close>

lemma find_exact:
  assumes "(rid, q) \<in> set xs"
  shows "\<exists>k. find (\<lambda>(k, s). q = s) xs = Some (k, q) \<and> (k, q) \<in> set xs"
  using assms by (induction xs) auto

text \<open>
  C1. A query that is byte-identical to the sequence of some reference is annotated with a
  reference of that very sequence (the first one in the iteration order of the reference
  dictionary), with counts 0, 0, 0 and three empty lists, and nothing is printed. This is
  so for every cutoff, in mismatch-only mode and in indel mode alike, and whatever the
  functions of \<open>seqlib\<close> do: neither approximate matcher takes part in the result.
\<close>

theorem exact_match_first:
  assumes "dictOrder_ok E" and "distinct (map fst refSeqsDict)"
    and "(refSeqID, querySeq) \<in> set refSeqsDict"
  shows "\<exists>k. (k, querySeq) \<in> set refSeqsDict
           \<and> find (\<lambda>(k, s). querySeq = s) (items E refSeqsDict) = Some (k, querySeq)
           \<and> alignAnnotateEachSeq E querySeq refSeqsDict startPos refPosDict MMcutoff indelMode
               = ([], Inr (makeAnnotation k (PyInt 0) (PyInt 0) (PyInt 0) [] [] []))
           \<and> makeAnnotation k (PyInt 0) (PyInt 0) (PyInt 0) [] [] [] = k @ '':0:0:0:::''"
proof -
  from assms have "(refSeqID, querySeq) \<in> set (items E refSeqsDict)"
    by (simp add: set_items)
  from find_exact [OF this] obtain k where
    k: "find (\<lambda>(k, s). querySeq = s) (items E refSeqsDict) = Some (k, querySeq)"
       "(k, querySeq) \<in> set (items E refSeqsDict)" by blast
  from k(2) assms have "(k, querySeq) \<in> set refSeqsDict" by (simp add: set_items)
  with k(1) show ?thesis
    by (auto simp: alignAnnotateEachSeq_def exact_annotation)
qed

theorem exact_match_first_witness:
  "dictOrder_ok env0 \<and> distinct (map fst [(''r1'', ''AC''), (''r2'', ''GT'')])
   \<and> (''r2'', ''GT'') \<in> set [(''r1'', ''AC''), (''r2'', ''GT'')]
   \<and> (\<exists>k. (k, ''GT'') \<in> set [(''r1'', ''AC''), (''r2'', ''GT'')]
        \<and> find (\<lambda>(k, s). ''GT'' = s) (items env0 [(''r1'', ''AC''), (''r2'', ''GT'')]) = Some (k, ''GT'')
        \<and> alignAnnotateEachSeq env0 ''GT'' [(''r1'', ''AC''), (''r2'', ''GT'')] 1 [] None True
            = ([], Inr (makeAnnotation k (PyInt 0) (PyInt 0) (PyInt 0) [] [] []))
        \<and> makeAnnotation k (PyInt 0) (PyInt 0) (PyInt 0) [] [] [] = k @ '':0:0:0:::'')"
proof -
  have a: "dictOrder_ok env0" by (rule dictOrder_ok_env0)
  have b: "distinct (map fst [(''r1'', ''AC''), (''r2'', ''GT'')])" by simp
  have c: "(''r2'', ''GT'') \<in> set [(''r1'', ''AC''), (''r2'', ''GT'')]" by simp
  show ?thesis using a b c exact_match_first [OF a b c, of 1 "[]" None True] by blast
qed

section \<open>The cutoff\<close>

text \<open>
  C9. In mismatch-only mode the cutoff 0 is treated as no cutoff at all: the matcher
  returns (and prints) the same with \<open>MMcutoff = 0\<close> as with \<open>MMcutoff = None\<close>, both
  being replaced by the length of the query.
\<close>

theorem cutoff_zero_is_no_cutoff:
  "alignAnnotateEachSeq E querySeq refSeqsDict startPos refPosDict (Some 0) False =
   alignAnnotateEachSeq E querySeq refSeqsDict startPos refPosDict None False
   \<and> alignAnnotateEachSeq E querySeq refSeqsDict startPos refPosDict None False =
     (case find (\<lambda>(refSeqID, refSeq). querySeq = refSeq) (items E refSeqsDict) of
        Some (refSeqID, refSeq) \<Rightarrow>
          ([], Inr (makeAnnotation refSeqID (PyInt 0) (PyInt 0) (PyInt 0) [] [] []))
      | None \<Rightarrow>
          alignAnnotateEachSeqMMonly E querySeq refSeqsDict startPos refPosDict
            (int (length querySeq)))"
  by (simp add: alignAnnotateEachSeq_def split: option.splits)

section \<open>Facts about the batch\<close>

lemma bind_Inr_iff: "bind m f = Inr y \<longleftrightarrow> (\<exists>x. m = Inr x \<and> f x = Inr y)"
  by (cases m) (auto simp: bind_def)

lemma bind_Inl_iff: "bind m f = Inl e \<longleftrightarrow> m = Inl e \<or> (\<exists>x. m = Inr x \<and> f x = Inl e)"
  by (cases m) (auto simp: bind_def)

lemma applyEach_Inr_iff:
  "applyEach f ss = Inr as \<longleftrightarrow>
     length as = length ss \<and> (\<forall>i < length ss. snd (f (ss ! i)) = Inr (as ! i))"
proof (induction ss arbitrary: as)
  case Nil
  then show ?case by auto
next
  case (Cons s ss)
  show ?case
  proof (cases as)
    case Nil
    then show ?thesis by (auto simp: bind_Inr_iff)
  next
    case (Cons a as')
    then show ?thesis
      using Cons.IH [of as'] by (auto simp: bind_Inr_iff nth_Cons split: nat.splits)
  qed
qed

lemma applyEach_total:
  assumes "\<forall>s \<in> set ss. \<exists>a. snd (f s) = Inr a"
  shows "\<exists>as. applyEach f ss = Inr as"
  using assms by (induction ss) (auto simp: bind_def)

lemma applyEach_fails:
  assumes "s \<in> set ss" and "snd (f s) = Inl e"
  shows "\<exists>e'. applyEach f ss = Inl e'"
  using assms
proof (induction ss)
  case Nil then show ?case by simp
next
  case (Cons x xs)
  show ?case
  proof (cases "snd (f x)")
    case (Inl e1) then show ?thesis by (simp add: bind_def)
  next
    case (Inr a)
    with Cons have "\<exists>e'. applyEach f xs = Inl e'" by auto
    with Inr show ?thesis by (auto simp: bind_def)
  qed
qed

lemma applyEach_map: "applyEach f (map g ss) = applyEach (\<lambda>s. f (g s)) ss"
  by (induction ss) auto

lemma split_on_nonempty: "split_on c w \<noteq> []"
  by (induction w) (auto split: list.splits)

lemma split_on_append: "split_on c (a @ c # w) = split_on c a @ split_on c w"
proof (induction a)
  case Nil then show ?case by simp
next
  case (Cons x a)
  then show ?case using split_on_nonempty [of c a]
    by (cases "split_on c a") auto
qed

lemma last_field: "c \<notin> set w \<Longrightarrow> last (split_on c (a @ c # w)) = w"
  by (simp add: split_on_append split_on_free split_on_nonempty)

lemma colon_str_int: "CHR '':'' \<notin> set (str_int i)"
  by (simp add: str_int_def colon_str_nat)

section \<open>Facts about reading the references\<close>

lemma map_of_dict_set: "map_of (dict_set d k v) = (map_of d)(k \<mapsto> v)"
  by (induction d k v rule: dict_set.induct) auto

lemma keys_dict_set:
  "map fst (dict_set d k v) = (if k \<in> fst ` set d then map fst d else map fst d @ [k])"
  by (induction d k v rule: dict_set.induct) auto

lemma distinct_dict_set: "distinct (map fst d) \<Longrightarrow> distinct (map fst (dict_set d k v))"
  by (simp add: keys_dict_set)

lemma keys_dict_set_same:
  assumes "map fst p = map fst d"
  shows "map fst (dict_set p k v) = map fst (dict_set d k w)"
proof -
  from assms have "fst ` set p = fst ` set d" by (metis list.set_map)
  with assms show ?thesis by (simp add: keys_dict_set)
qed

lemma readRefsStep_eq:
  "readRefsStep nm r (d, p) =
     (dict_set d (rec_id r) (upper (rec_seq r)),
      dict_set p (rec_id r) (if nm then [i - phredOffset. i \<leftarrow> phred_quality r] @ [1] else []))"
  by (simp add: readRefsStep_def)

lemma map_of_fold_readRefs:
  "map_of (fst (fold (readRefsStep nm) recs (d, p))) =
     map_of (rev (map (\<lambda>r. (rec_id r, upper (rec_seq r))) recs) @ d)"
proof (induction recs arbitrary: d p)
  case Nil
  then show ?case by simp
next
  case (Cons r recs)
  have "map_of (fst (fold (readRefsStep nm) (r # recs) (d, p))) =
        map_of (rev (map (\<lambda>r. (rec_id r, upper (rec_seq r))) recs)
                 @ dict_set d (rec_id r) (upper (rec_seq r)))"
    by (simp add: readRefsStep_eq Cons.IH)
  also have "\<dots> = map_of (rev (map (\<lambda>r. (rec_id r, upper (rec_seq r))) (r # recs)) @ d)"
    by (rule ext) (simp add: map_of_dict_set map_add_def split: option.splits)
  finally show ?case .
qed

lemma distinct_fold_readRefs:
  "distinct (map fst d) \<Longrightarrow> distinct (map fst (fst (fold (readRefsStep nm) recs (d, p))))"
  by (induction recs arbitrary: d p) (simp_all add: readRefsStep_eq distinct_dict_set)

lemma keys_fold_readRefs:
  "map fst p = map fst d \<Longrightarrow>
     map fst (snd (fold (readRefsStep nm) recs (d, p))) =
     map fst (fst (fold (readRefsStep nm) recs (d, p)))"
proof (induction recs arbitrary: d p)
  case Nil
  then show ?case by simp
next
  case (Cons r recs)
  show ?case
    unfolding fold_Cons comp_apply readRefsStep_eq
    by (rule Cons.IH) (rule keys_dict_set_same [OF Cons.prems])
qed

lemma readRefs_map_of:
  "map_of (fst (readRefs nm recs)) = map_of (rev (map (\<lambda>r. (rec_id r, upper (rec_seq r))) recs))"
  using map_of_fold_readRefs [of nm recs "[]" "[]"] by (simp add: readRefs_def)

lemma readRefs_distinct: "distinct (map fst (fst (readRefs nm recs)))"
  using distinct_fold_readRefs [of "[]" nm recs "[]"] by (simp add: readRefs_def)

lemma readRefs_keys: "map fst (snd (readRefs nm recs)) = map fst (fst (readRefs nm recs))"
  using keys_fold_readRefs [of "[]" "[]" nm recs] by (simp add: readRefs_def)

section \<open>Facts about the mismatch-only matcher\<close>

lemma pymin_Min: "pymin xs = Inr (Min (set xs))" if "xs \<noteq> []"
proof (cases xs)
  case Nil
  with that show ?thesis by simp
next
  case (Cons x ys)
  have "fold min ys x = Min (set (x # ys))" by (simp only: Min.set_eq_fold)
  with Cons show ?thesis by (simp add: pymin_def)
qed

lemma pymin_empty: "pymin [] = Inl ValueError"
  by (simp add: pymin_def)

lemma ids_filter: "[k. (k, h) \<leftarrow> xs, h = m] = map fst (filter (\<lambda>(k, h). h = m) xs)"
  by (induction xs) auto

lemma find_filter_hd: "find P xs = (case filter P xs of [] \<Rightarrow> None | x # _ \<Rightarrow> Some x)"
  by (induction xs) auto

lemma min_attained:
  fixes xs :: "(string \<times> int) list"
  assumes "xs \<noteq> []"
  shows "\<exists>k rest. [k. (k, h) \<leftarrow> xs, h = Min (snd ` set xs)] = k # rest
           \<and> find (\<lambda>(k, h). h = Min (snd ` set xs)) xs = Some (k, Min (snd ` set xs))"
proof -
  let ?m = "Min (snd ` set xs)"
  from assms have "?m \<in> snd ` set xs" by (intro Min_in) auto
  then obtain k where "(k, ?m) \<in> set xs" by auto
  then have "(k, ?m) \<in> set (filter (\<lambda>(k, h). h = ?m) xs)" by simp
  then obtain y ys where f: "filter (\<lambda>(k, h). h = ?m) xs = y # ys"
    by (cases "filter (\<lambda>(k, h). h = ?m) xs") auto
  then have "y \<in> set (filter (\<lambda>(k, h). h = ?m) xs)" by simp
  then have "snd y = ?m" by auto
  then have y: "y = (fst y, ?m)" by (cases y) simp
  show ?thesis
    using f y by (auto simp: ids_filter find_filter_hd)
qed

lemma hamDictMM_entry:
  "(k, h) \<in> set (hamDictMM E q refs) \<longleftrightarrow>
     (\<exists>s. (k, s) \<in> set (items E refs) \<and> length q = length s \<and> h = hamming E q s)"
  by (auto simp: hamDictMM_def)

lemma keys_comprehension:
  "fst ` set [(k, f s). (k, s) \<leftarrow> xs, P s] \<subseteq> fst ` set xs"
  by force

lemma distinct_comprehension:
  "distinct (map fst xs) \<Longrightarrow> distinct (map fst [(k, f s). (k, s) \<leftarrow> xs, P s])"
proof (induction xs)
  case Nil
  then show ?case by simp
next
  case (Cons x xs)
  obtain k s where x: "x = (k, s)" by (cases x)
  from Cons.prems x have "k \<notin> fst ` set xs" by simp
  with keys_comprehension [where f = f and P = P and xs = xs] have "k \<notin> fst ` set [(k, f s). (k, s) \<leftarrow> xs, P s]"
    by blast
  with Cons x show ?case by simp
qed

lemma distinct_hamDictMM:
  assumes "dictOrder_ok E" and "distinct (map fst refs)"
  shows "distinct (map fst (hamDictMM E q refs))"
  unfolding hamDictMM_def
  by (rule distinct_comprehension) (rule distinct_items [OF assms])

lemma lookup_distinct:
  "distinct (map fst d) \<Longrightarrow> (k, v) \<in> set d \<Longrightarrow> lookup d k = Inr v"
  by (simp add: lookup_def)

lemma lookup_key: "k \<in> fst ` set d \<Longrightarrow> \<exists>v. lookup d k = Inr v"
  by (cases "map_of d k") (auto simp: lookup_def map_of_eq_None_iff)

lemma MMonly_structure:
  assumes ok: "dictOrder_ok E" and dist: "distinct (map fst refs)"
    and cov: "fst ` set refs \<subseteq> fst ` set refPos"
    and ne: "hamDictMM E q refs \<noteq> []"
  shows "\<exists>k s rp m.
           pymin (map snd (items E (hamDictMM E q refs))) = Inr m
         \<and> find (\<lambda>(k, h). h = m) (items E (hamDictMM E q refs)) = Some (k, m)
         \<and> (k, s) \<in> set refs \<and> length s = length q \<and> hamming E q s = m
         \<and> lookup refPos k = Inr rp
         \<and> alignAnnotateEachSeqMMonly E q refs sp refPos c =
             (if m \<le> c then
                (if 1 < length [k. (k, h) \<leftarrow> items E (hamDictMM E q refs), h = m]
                 then [warningMM] else [],
                 Inr (makeAnnotation k (PyInt m) (PyInt 0) (PyInt 0)
                        (findMismatches E q s sp rp) [] []))
              else ([], Inr (makeAnnotation ''NA'' NaN NaN NaN [] [] [])))"
proof -
  let ?H = "items E (hamDictMM E q refs)"
  let ?m = "Min (snd ` set ?H)"
  have setH: "set ?H = set (hamDictMM E q refs)"
    by (rule set_items [OF ok distinct_hamDictMM [OF ok dist]])
  with ne have Hne: "?H \<noteq> []" by (metis set_empty)
  then have pm: "pymin (map snd ?H) = Inr ?m" by (simp add: pymin_Min)
  from min_attained [OF Hne] obtain k rest where
    ids: "[k. (k, h) \<leftarrow> ?H, h = ?m] = k # rest"
    and fnd: "find (\<lambda>(k, h). h = ?m) ?H = Some (k, ?m)" by blast
  from fnd have "(k, ?m) \<in> set ?H" by (auto simp: find_Some_iff in_set_conv_nth)
  with setH obtain s where s: "(k, s) \<in> set (items E refs)" "length q = length s"
    "?m = hamming E q s" by (auto simp: hamDictMM_entry)
  from s(1) have sr: "(k, s) \<in> set refs" by (simp add: set_items [OF ok dist])
  then have ls: "lookup refs k = Inr s" by (rule lookup_distinct [OF dist])
  from sr cov have "k \<in> fst ` set refPos" by force
  then obtain rp where rp: "lookup refPos k = Inr rp" using lookup_key by blast
  have "alignAnnotateEachSeqMMonly E q refs sp refPos c =
             (if ?m \<le> c then
                (if 1 < length [k. (k, h) \<leftarrow> ?H, h = ?m] then [warningMM] else [],
                 Inr (makeAnnotation k (PyInt ?m) (PyInt 0) (PyInt 0)
                        (findMismatches E q s sp rp) [] []))
              else ([], Inr (makeAnnotation ''NA'' NaN NaN NaN [] [] [])))"
    unfolding alignAnnotateEachSeqMMonly_def Let_def
    using ne by (simp add: pm ids index0_def bind_def ls rp)
  with pm fnd sr s rp show ?thesis by auto
qed

end
